theory Spec2Isabelle
  imports Main "HOL-Library.Word"
begin

section \<open>Text, bytes and the codecs the handler calls\<close>

text \<open>
  A Python \<open>str\<close> is a sequence of Unicode code points and a \<open>bytes\<close> object a sequence
  of octets; both are lists of naturals here. Source literals are written with \<open>lit\<close>.
\<close>

type_synonym pystr = "nat list"
type_synonym bytes = "nat list"

definition lit :: "string \<Rightarrow> pystr" where
  "lit s = map of_char s"

text \<open>\<open>str.isspace\<close> on one code point, which is also what \<open>str.strip()\<close> removes.\<close>

definition py_isspace :: "nat \<Rightarrow> bool" where
  "py_isspace c \<longleftrightarrow>
     (9 \<le> c \<and> c \<le> 13) \<or> (28 \<le> c \<and> c \<le> 32) \<or> c = 133 \<or> c = 160 \<or> c = 5760 \<or>
     (8192 \<le> c \<and> c \<le> 8202) \<or> c = 8232 \<or> c = 8233 \<or> c = 8239 \<or> c = 8287 \<or> c = 12288"

definition strip :: "pystr \<Rightarrow> pystr" where
  "strip s = rev (dropWhile py_isspace (rev (dropWhile py_isspace s)))"

text \<open>\<open>str(n)\<close> for an integer: decimal digits, with a minus sign when negative.\<close>

fun dec :: "nat \<Rightarrow> pystr" where
  "dec n = (if n < 10 then [48 + n] else dec (n div 10) @ [48 + n mod 10])"

declare dec.simps [simp del]

definition str_int :: "int \<Rightarrow> pystr" where
  "str_int i = (if i < 0 then 45 # dec (nat (- i)) else dec (nat i))"

text \<open>
  \<open>s.encode("utf-8")\<close>: \<open>None\<close> stands for \<open>UnicodeEncodeError\<close> (a surrogate, or a
  value that is no code point).
\<close>

definition utf8_encode_cp :: "nat \<Rightarrow> bytes option" where
  "utf8_encode_cp c =
     (if c < 128 then Some [c]
      else if c < 2048 then Some [192 + c div 64, 128 + c mod 64]
      else if c < 65536 then
        (if 55296 \<le> c \<and> c \<le> 57343 then None
         else Some [224 + c div 4096, 128 + (c div 64) mod 64, 128 + c mod 64])
      else if c < 1114112 then
        Some [240 + c div 262144, 128 + (c div 4096) mod 64, 128 + (c div 64) mod 64,
              128 + c mod 64]
      else None)"

fun utf8_encode :: "pystr \<Rightarrow> bytes option" where
  "utf8_encode [] = Some []"
| "utf8_encode (c # cs) =
     (case utf8_encode_cp c of
        None \<Rightarrow> None
      | Some bs \<Rightarrow> (case utf8_encode cs of None \<Rightarrow> None | Some r \<Rightarrow> Some (bs @ r)))"

text \<open>
  \<open>raw.decode("utf-8")\<close>, strict: \<open>None\<close> stands for \<open>UnicodeDecodeError\<close> (a stray
  continuation byte, a truncated or overlong sequence, a surrogate, a value above
  U+10FFFF).
\<close>

definition is_cont :: "nat \<Rightarrow> bool" where
  "is_cont b \<longleftrightarrow> 128 \<le> b \<and> b \<le> 191"

fun utf8_decode :: "bytes \<Rightarrow> pystr option" where
  "utf8_decode [] = Some []"
| "utf8_decode (b0 # bs) =
     (if b0 < 128 then
        (case utf8_decode bs of None \<Rightarrow> None | Some t \<Rightarrow> Some (b0 # t))
      else if 194 \<le> b0 \<and> b0 \<le> 223 then
        (case bs of
           b1 # r \<Rightarrow>
             if is_cont b1 then
               (case utf8_decode r of
                  None \<Rightarrow> None
                | Some t \<Rightarrow> Some (((b0 - 192) * 64 + (b1 - 128)) # t))
             else None
         | _ \<Rightarrow> None)
      else if 224 \<le> b0 \<and> b0 \<le> 239 then
        (case bs of
           b1 # b2 # r \<Rightarrow>
             let c = (b0 - 224) * 4096 + (b1 - 128) * 64 + (b2 - 128) in
             if is_cont b1 \<and> is_cont b2 \<and> 2048 \<le> c \<and> \<not> (55296 \<le> c \<and> c \<le> 57343) then
               (case utf8_decode r of None \<Rightarrow> None | Some t \<Rightarrow> Some (c # t))
             else None
         | _ \<Rightarrow> None)
      else if 240 \<le> b0 \<and> b0 \<le> 244 then
        (case bs of
           b1 # b2 # b3 # r \<Rightarrow>
             let c = (b0 - 240) * 262144 + (b1 - 128) * 4096 + (b2 - 128) * 64 + (b3 - 128) in
             if is_cont b1 \<and> is_cont b2 \<and> is_cont b3 \<and> 65536 \<le> c \<and> c < 1114112 then
               (case utf8_decode r of None \<Rightarrow> None | Some t \<Rightarrow> Some (c # t))
             else None
         | _ \<Rightarrow> None)
      else None)"

text \<open>
  Reading a file in text mode with the default \<open>newline=None\<close>: every \<open>\r\n\<close> and every
  lone \<open>\r\<close> comes back as \<open>\n\<close>.
\<close>

fun universal_newlines :: "nat list \<Rightarrow> nat list" where
  "universal_newlines [] = []"
| "universal_newlines [c] = [if c = 13 then 10 else c]"
| "universal_newlines (c # d # cs) =
     (if c = 13 \<and> d = 10 then 10 # universal_newlines cs
      else if c = 13 then 10 # universal_newlines (d # cs)
      else c # universal_newlines (d # cs))"


section \<open>Python values, exceptions and the platform\<close>

text \<open>
  What \<open>json.loads\<close> can return. A float is kept as its IEEE-754 bit pattern, a
  \<open>dict\<close> as its items in insertion order (keys distinct).
\<close>

datatype pyval =
    PNone
  | PBool bool
  | PInt int
  | PFloat "64 word"
  | PStr pystr
  | PList "pyval list"
  | PDict "(pystr \<times> pyval) list"

text \<open>Truth value testing, as \<open>x or ""\<close> applies it.\<close>

fun truthy :: "pyval \<Rightarrow> bool" where
  "truthy PNone = False"
| "truthy (PBool b) = b"
| "truthy (PInt i) = (i \<noteq> 0)"
| "truthy (PFloat w) = (w \<noteq> 0 \<and> w \<noteq> 9223372036854775808)"
| "truthy (PStr s) = (s \<noteq> [])"
| "truthy (PList xs) = (xs \<noteq> [])"
| "truthy (PDict kvs) = (kvs \<noteq> [])"

definition py_or :: "pyval \<Rightarrow> pyval \<Rightarrow> pyval" where
  "py_or a b = (if truthy a then a else b)"

text \<open>
  The exception classes that can leave the handler. \<open>OSError\<close> stands for the class and
  its subclasses (\<open>FileNotFoundError\<close>, \<open>FileExistsError\<close>, \<open>PermissionError\<close>);
  \<open>JSONDecodeError\<close>, \<open>UnicodeDecodeError\<close> and \<open>UnicodeEncodeError\<close> are subclasses of
  \<open>ValueError\<close>, and an \<open>except\<close> clause naming one of them does not catch the others.
  \<open>OverflowError\<close> and \<open>MemoryError\<close> are what a read of too many octets raises.
\<close>

datatype exn =
    JSONDecodeError
  | UnicodeDecodeError
  | UnicodeEncodeError
  | ValueError
  | AttributeError
  | OSError
  | OverflowError
  | MemoryError
  | OtherError

record completed_process =
  returncode :: int
  stdout :: pystr
  stderr :: pystr

datatype node = Dir | File bytes

type_synonym filesystem = "pystr \<Rightarrow> node option"

text \<open>
  The handler's surroundings, which the source file does not define: the module
  constants computed at import (\<open>sys.executable\<close>, \<open>REPO_ROOT\<close>), the library functions
  whose results the handler only passes on (\<open>int\<close>, \<open>json.loads\<close>, \<open>str\<close> of a value that
  is no string, integer, boolean or \<open>None\<close>, \<open>json.dumps(...).encode("utf-8")\<close>), the names
  \<open>tempfile\<close> proposes for a new directory, in the order it tries them, and the child
  process: from the argument vector, the working directory and the file system it
  finds, either the exception \<open>subprocess.run\<close> raises or the completed process, and the
  file system it leaves.

  \<open>read_buffer\<close> is the first thing \<open>rfile.read(n)\<close> does, before it takes anything from
  the stream: it obtains a buffer of \<open>n\<close> octets. \<open>None\<close> means it got one. Otherwise the
  read raises: \<open>OverflowError\<close> when \<open>n\<close> does not fit an index (\<open>n > sys.maxsize\<close>) or a
  \<open>bytes\<close> object cannot be that long, \<open>MemoryError\<close> when the memory at hand does not
  suffice.
\<close>

record platform =
  sys_executable :: pystr
  repo_root :: pystr
  py_int :: "pystr \<Rightarrow> int option"
  read_buffer :: "int \<Rightarrow> exn option"
  json_loads :: "pystr \<Rightarrow> exn + pyval"
  py_repr :: "pyval \<Rightarrow> pystr"
  json_dumps_utf8 :: "pyval \<Rightarrow> bytes"
  tmp_candidates :: "pystr list"
  subprocess_run ::
    "pystr list \<Rightarrow> pystr \<Rightarrow> filesystem \<Rightarrow> (exn + completed_process) \<times> filesystem"

text \<open>\<open>str(v)\<close>.\<close>

definition py_str :: "platform \<Rightarrow> pyval \<Rightarrow> pystr" where
  "py_str P v =
     (case v of
        PStr s \<Rightarrow> s
      | PNone \<Rightarrow> lit ''None''
      | PBool b \<Rightarrow> (if b then lit ''True'' else lit ''False'')
      | PInt i \<Rightarrow> str_int i
      | _ \<Rightarrow> py_repr P v)"

text \<open>\<open>payload.get(key)\<close>: only a \<open>dict\<close> has the method.\<close>

definition dict_get :: "pyval \<Rightarrow> pystr \<Rightarrow> exn + pyval" where
  "dict_get payload key =
     (case payload of
        PDict kvs \<Rightarrow> Inr (case map_of kvs key of None \<Rightarrow> PNone | Some v \<Rightarrow> v)
      | _ \<Rightarrow> Inl AttributeError)"

text \<open>\<open>Path(a) / b\<close> as a string, for a POSIX directory \<open>a\<close> other than the root.\<close>

definition joinpath :: "pystr \<Rightarrow> pystr \<Rightarrow> pystr" where
  "joinpath a b = a @ [47] @ b"

definition INDEX_PATH :: "platform \<Rightarrow> pystr" where
  "INDEX_PATH P = joinpath (joinpath (repo_root P) (lit ''web_gui'')) (lit ''index.html'')"

section \<open>The request, the response and the world\<close>

text \<open>
  Of the request the handler reads \<open>self.path\<close> and \<open>self.headers.get("Content-Length")\<close>.
  Of a response the model keeps the status, the headers the handler sets and the
  content: for \<open>_send_json\<close> the payload whose serialisation is the body, for
  \<open>_send_html\<close> the octets.
\<close>

record request =
  path :: pystr
  content_length :: "pystr option"

datatype content = JsonOf pyval | Octets bytes

record response =
  status :: nat
  headers :: "(pystr \<times> pystr) list"
  content :: content

text \<open>
  What the handler does to its surroundings, in order. \<open>Run\<close> is one call of
  \<open>subprocess.run\<close>: the argument vector, the working directory and how the call ended.
\<close>

datatype event =
    Mkdtemp pystr
  | WriteText pystr pystr
  | Run "pystr list" pystr "exn + completed_process"
  | Rmtree pystr
  | Respond response
  | SendError nat pystr

record world =
  fs :: filesystem
  rfile :: bytes
  trace :: "event list"

definition fresh :: "filesystem \<Rightarrow> bytes \<Rightarrow> world" where
  "fresh f b = \<lparr>fs = f, rfile = b, trace = []\<rparr>"

definition emit :: "event \<Rightarrow> world \<Rightarrow> world" where
  "emit e w = w\<lparr>trace := trace w @ [e]\<rparr>"

text \<open>Readings of a trace: what was sent, which files were written, which children ran.\<close>

fun sent :: "event list \<Rightarrow> event list" where
  "sent [] = []"
| "sent (Respond r # es) = Respond r # sent es"
| "sent (SendError c m # es) = SendError c m # sent es"
| "sent (e # es) = sent es"

fun writes :: "event list \<Rightarrow> (pystr \<times> pystr) list" where
  "writes [] = []"
| "writes (WriteText p t # es) = (p, t) # writes es"
| "writes (e # es) = writes es"

fun runs :: "event list \<Rightarrow> (pystr list \<times> pystr) list" where
  "runs [] = []"
| "runs (Run cmd cwd r # es) = (cmd, cwd) # runs es"
| "runs (e # es) = runs es"


section \<open>The library calls with an effect\<close>

text \<open>
  \<open>self.send_error(code, message)\<close> writes the library's error page with that status.
\<close>

definition send_error :: "nat \<Rightarrow> pystr \<Rightarrow> world \<Rightarrow> exn option \<times> world" where
  "send_error code message w = (None, emit (SendError code message) w)"

text \<open>
  \<open>Path.read_text(encoding="utf-8")\<close>: opening fails with \<open>OSError\<close> when there is no
  such file or it is a directory; the octets are decoded strictly and the newlines
  translated.
\<close>

definition read_text :: "filesystem \<Rightarrow> pystr \<Rightarrow> exn + pystr" where
  "read_text f p =
     (case f p of
        None \<Rightarrow> Inl OSError
      | Some Dir \<Rightarrow> Inl OSError
      | Some (File bs) \<Rightarrow>
          (case utf8_decode bs of
             None \<Rightarrow> Inl UnicodeDecodeError
           | Some t \<Rightarrow> Inr (universal_newlines t)))"

text \<open>
  \<open>Path.write_text(data, encoding="utf-8")\<close> on a POSIX platform (\<open>os.linesep\<close> is
  \<open>\n\<close>): the file is created or truncated when it is opened, so a string that cannot
  be encoded leaves it empty.
\<close>

definition write_text :: "pystr \<Rightarrow> pystr \<Rightarrow> world \<Rightarrow> exn option \<times> world" where
  "write_text p data w =
     (case utf8_encode data of
        None \<Rightarrow> (Some UnicodeEncodeError, emit (WriteText p data) (w\<lparr>fs := (fs w)(p \<mapsto> File [])\<rparr>))
      | Some bs \<Rightarrow> (None, emit (WriteText p data) (w\<lparr>fs := (fs w)(p \<mapsto> File bs)\<rparr>)))"

text \<open>
  \<open>tempfile.TemporaryDirectory()\<close>: \<open>mkdtemp\<close> makes the first proposed name that does not
  exist yet, and raises \<open>FileExistsError\<close> when every name is taken.
\<close>

definition TemporaryDirectory :: "platform \<Rightarrow> world \<Rightarrow> (exn + pystr) \<times> world" where
  "TemporaryDirectory P w =
     (case find (\<lambda>n. fs w n = None) (tmp_candidates P) of
        None \<Rightarrow> (Inl OSError, w)
      | Some d \<Rightarrow> (Inr d, emit (Mkdtemp d) (w\<lparr>fs := (fs w)(d \<mapsto> Dir)\<rparr>)))"

text \<open>
  Leaving the \<open>with\<close> block calls \<open>cleanup()\<close>, which removes the directory and
  everything below it.
\<close>

definition under :: "pystr \<Rightarrow> pystr \<Rightarrow> bool" where
  "under d p \<longleftrightarrow> p = d \<or> take (Suc (length d)) p = d @ [47]"

definition cleanup :: "pystr \<Rightarrow> world \<Rightarrow> world" where
  "cleanup d w = emit (Rmtree d) (w\<lparr>fs := (\<lambda>p. if under d p then None else fs w p)\<rparr>)"

text \<open>\<open>subprocess.run(cmd, cwd=..., capture_output=True, text=True)\<close>.\<close>

definition run :: "platform \<Rightarrow> pystr list \<Rightarrow> pystr \<Rightarrow> world \<Rightarrow> (exn + completed_process) \<times> world" where
  "run P cmd cwd w =
     (case subprocess_run P cmd cwd (fs w) of
        (r, f') \<Rightarrow> (r, emit (Run cmd cwd r) (w\<lparr>fs := f'\<rparr>)))"

section \<open>\<open>WebGuiHandler\<close>\<close>

definition send_json :: "platform \<Rightarrow> pyval \<Rightarrow> nat \<Rightarrow> world \<Rightarrow> world" where
  "send_json P payload st w =
     (let body = json_dumps_utf8 P payload in
      emit (Respond \<lparr>status = st,
                     headers = [(lit ''Content-Type'', lit ''application/json; charset=utf-8''),
                                (lit ''Content-Length'', dec (length body))],
                     content = JsonOf payload\<rparr>) w)"

definition send_html :: "pystr \<Rightarrow> world \<Rightarrow> exn option \<times> world" where
  "send_html payload w =
     (case utf8_encode payload of
        None \<Rightarrow> (Some UnicodeEncodeError, w)
      | Some body \<Rightarrow>
          (None, emit (Respond \<lparr>status = 200,
                                headers = [(lit ''Content-Type'', lit ''text/html; charset=utf-8''),
                                           (lit ''Content-Length'', dec (length body))],
                                content = Octets body\<rparr>) w))"

text \<open>
  \<open>_read_request_json\<close>. An absent header gives \<open>int("0")\<close>, which is 0; a header that
  \<open>int\<close> rejects raises \<open>ValueError\<close>. \<open>rfile.read(length)\<close> raises, with nothing taken
  from the stream, when it gets no buffer of that length; otherwise it takes \<open>length\<close>
  octets from the stream, or all that is left before its end.
\<close>

definition read_request_json :: "platform \<Rightarrow> request \<Rightarrow> world \<Rightarrow> (exn + pyval) \<times> world" where
  "read_request_json P req w =
     (case (case content_length req of None \<Rightarrow> Some 0 | Some h \<Rightarrow> py_int P h) of
        None \<Rightarrow> (Inl ValueError, w)
      | Some len \<Rightarrow>
          if len \<le> 0 then (Inr (PDict []), w)
          else
            (case read_buffer P len of
               Some e \<Rightarrow> (Inl e, w)
             | None \<Rightarrow>
                 let raw = take (nat len) (rfile w);
                     w' = w\<lparr>rfile := drop (nat len) (rfile w)\<rparr>
                 in (case utf8_decode raw of
                       None \<Rightarrow> (Inl UnicodeDecodeError, w')
                     | Some s \<Rightarrow>
                         (case json_loads P s of
                            Inl e \<Rightarrow>
                              if e = JSONDecodeError then (Inr (PDict []), w') else (Inl e, w')
                          | Inr v \<Rightarrow> (Inr v, w')))))"

definition do_GET :: "platform \<Rightarrow> request \<Rightarrow> world \<Rightarrow> exn option \<times> world" where
  "do_GET P req w =
     (if path req \<noteq> lit ''/'' \<and> path req \<noteq> lit ''/index.html'' then
        send_error 404 (lit ''Not Found'') w
      else
        (case read_text (fs w) (INDEX_PATH P) of
           Inl e \<Rightarrow>
             if e = OSError then send_error 500 (lit ''index.html missing'') w
             else (Some e, w)
         | Inr html \<Rightarrow> send_html html w))"

text \<open>The body of the \<open>with\<close> block of \<open>do_POST\<close>, for the directory \<open>tmpdir\<close>.\<close>

definition staged_run ::
  "platform \<Rightarrow> pystr \<Rightarrow> pystr \<Rightarrow> pystr \<Rightarrow> world \<Rightarrow> (exn + completed_process) \<times> world" where
  "staged_run P source script_key tmpdir w =
     (let temp_path = joinpath tmpdir (lit ''input.lua'') in
      case write_text temp_path source w of
        (Some e, w1) \<Rightarrow> (Inl e, w1)
      | (None, w1) \<Rightarrow>
          let cmd = [sys_executable P,
                     joinpath (repo_root P) (lit ''main.py''),
                     lit ''--format'',
                     lit ''lua'',
                     lit ''--no-report'',
                     lit ''--no-execute-output'',
                     lit ''--force'',
                     temp_path];
              cmd = (if script_key \<noteq> [] then cmd @ [lit ''--script-key'', script_key] else cmd)
          in run P cmd (repo_root P) w1)"

text \<open>The \<open>with\<close> statement: the directory is removed however its body ends.\<close>

definition with_tmpdir ::
  "platform \<Rightarrow> pystr \<Rightarrow> pystr \<Rightarrow> world \<Rightarrow> (exn + completed_process) \<times> world" where
  "with_tmpdir P source script_key w =
     (case TemporaryDirectory P w of
        (Inl e, w1) \<Rightarrow> (Inl e, w1)
      | (Inr tmpdir, w1) \<Rightarrow>
          (case staged_run P source script_key tmpdir w1 of
             (r, w2) \<Rightarrow> (r, cleanup tmpdir w2)))"

definition rejection :: pyval where
  "rejection = PDict [(lit ''ok'', PBool False), (lit ''error'', PStr (lit ''No source provided.''))]"

definition result_payload :: "completed_process \<Rightarrow> pyval" where
  "result_payload result =
     PDict [(lit ''ok'', PBool (returncode result = 0)),
            (lit ''returncode'', PInt (returncode result)),
            (lit ''output'', PStr (stdout result)),
            (lit ''stderr'', PStr (stderr result))]"

text \<open>\<open>do_POST\<close> from the decoded payload on.\<close>

definition do_POST_payload :: "platform \<Rightarrow> pyval \<Rightarrow> world \<Rightarrow> exn option \<times> world" where
  "do_POST_payload P payload w =
     (case dict_get payload (lit ''source'') of
        Inl e \<Rightarrow> (Some e, w)
      | Inr v \<Rightarrow>
          let source = py_str P (py_or v (PStr [])) in
          (case dict_get payload (lit ''script_key'') of
             Inl e \<Rightarrow> (Some e, w)
           | Inr k \<Rightarrow>
               let script_key = strip (py_str P (py_or k (PStr []))) in
               if strip source = [] then (None, send_json P rejection 400 w)
               else
                 (case with_tmpdir P source script_key w of
                    (Inl e, w') \<Rightarrow> (Some e, w')
                  | (Inr result, w') \<Rightarrow> (None, send_json P (result_payload result) 200 w'))))"

definition do_POST :: "platform \<Rightarrow> request \<Rightarrow> world \<Rightarrow> exn option \<times> world" where
  "do_POST P req w =
     (if path req \<noteq> lit ''/deobfuscate'' then send_error 404 (lit ''Not Found'') w
      else
        (case read_request_json P req w of
           (Inl e, w1) \<Rightarrow> (Some e, w1)
         | (Inr payload, w1) \<Rightarrow> do_POST_payload P payload w1))"


section \<open>Names for the statements\<close>

text \<open>
  The argument vector as the specification writes it: interpreter, entry point, the
  five fixed arguments, the staged file, then the key flag and the key when there is one.
\<close>

definition spec_argv :: "platform \<Rightarrow> pystr \<Rightarrow> pystr \<Rightarrow> pystr list" where
  "spec_argv P staged key =
     [sys_executable P, joinpath (repo_root P) (lit ''main.py''),
      lit ''--format'', lit ''lua'', lit ''--no-report'', lit ''--no-execute-output'', lit ''--force'',
      staged]
     @ (if key = [] then [] else [lit ''--script-key'', key])"

text \<open>
  Lines 64 and 65 of \<open>do_POST\<close> for a payload that is a \<open>dict\<close> with the items \<open>kv\<close>; and the
  response \<open>_send_json\<close> writes.
\<close>

definition source_text :: "platform \<Rightarrow> (pystr \<times> pyval) list \<Rightarrow> pystr" where
  "source_text P kv =
     py_str P (py_or (case map_of kv (lit ''source'') of None \<Rightarrow> PNone | Some v \<Rightarrow> v) (PStr []))"

definition script_key_text :: "platform \<Rightarrow> (pystr \<times> pyval) list \<Rightarrow> pystr" where
  "script_key_text P kv =
     strip (py_str P (py_or (case map_of kv (lit ''script_key'') of None \<Rightarrow> PNone | Some v \<Rightarrow> v)
                        (PStr [])))"

definition json_response :: "platform \<Rightarrow> nat \<Rightarrow> pyval \<Rightarrow> response" where
  "json_response P st v =
     \<lparr>status = st,
      headers = [(lit ''Content-Type'', lit ''application/json; charset=utf-8''),
                 (lit ''Content-Length'', dec (length (json_dumps_utf8 P v)))],
      content = JsonOf v\<rparr>"

section \<open>A platform for the examples\<close>

text \<open>
  The theorems below hold for every platform. Their instances are computed on this
  one: excerpts of \<open>int\<close> (strings of ASCII digits) and of \<open>json.loads\<close> (the five
  request bodies named here, which are ASCII, so that text and octets coincide),
  a 64-bit build with memory for a buffer of less than a mebibyte (above that, a
  \<open>bytes\<close> object of more than \<open>2^63 - 34\<close> octets is refused with \<open>OverflowError\<close>, a
  shorter one with \<open>MemoryError\<close>), two directory names, and a child process passed in.
  \<open>py_repr\<close> and \<open>json_dumps_utf8\<close> are left empty; no instance reads what they return.
\<close>

definition demo_int :: "pystr \<Rightarrow> int option" where
  "demo_int s =
     (if s \<noteq> [] \<and> (\<forall>c \<in> set s. 48 \<le> c \<and> c \<le> 57)
      then Some (int (foldl (\<lambda>a c. 10 * a + (c - 48)) 0 s))
      else None)"

definition demo_read_buffer :: "int \<Rightarrow> exn option" where
  "demo_read_buffer n =
     (if n < 1048576 then None
      else if 9223372036854775774 < n then Some OverflowError
      else Some MemoryError)"

definition body_keyed :: bytes where
  \<open>body_keyed = lit ''{"source": " x ", "script_key": " k "}''\<close>

definition body_print :: bytes where
  \<open>body_print = lit ''{"source": "print(1)"}''\<close>

definition body_null :: bytes where
  \<open>body_null = lit ''{"source": null}''\<close>

definition body_list :: bytes where
  "body_list = lit ''[1]''"

definition body_bare_null :: bytes where
  "body_bare_null = lit ''null''"

text \<open>A stream that holds \<open>2^63\<close> octets.\<close>

definition huge_body :: bytes where
  "huge_body = replicate 9223372036854775808 0"

definition demo_json_loads :: "pystr \<Rightarrow> exn + pyval" where
  "demo_json_loads s =
     (if s = body_keyed then
        Inr (PDict [(lit ''source'', PStr (lit '' x '')), (lit ''script_key'', PStr (lit '' k ''))])
      else if s = body_print then
        Inr (PDict [(lit ''source'', PStr (lit ''print(1)''))])
      else if s = body_null then
        Inr (PDict [(lit ''source'', PNone)])
      else if s = body_list then
        Inr (PList [PInt 1])
      else if s = body_bare_null then
        Inr PNone
      else Inl JSONDecodeError)"

text \<open>
  A child that exits with the given code and leaves a file beside its input; one that
  cannot be started; and one that prints its input file.
\<close>

definition demo_tool ::
  "int \<Rightarrow> pystr list \<Rightarrow> pystr \<Rightarrow> filesystem \<Rightarrow> (exn + completed_process) \<times> filesystem" where
  "demo_tool rc cmd cwd f =
     (Inr \<lparr>returncode = rc, stdout = lit ''done'', stderr = []\<rparr>,
      (case drop 7 cmd of [] \<Rightarrow> f | p # _ \<Rightarrow> f(p @ lit ''.out'' \<mapsto> File [])))"

definition no_interpreter ::
  "pystr list \<Rightarrow> pystr \<Rightarrow> filesystem \<Rightarrow> (exn + completed_process) \<times> filesystem" where
  "no_interpreter cmd cwd f = (Inl OSError, f)"

definition demo_cat ::
  "pystr list \<Rightarrow> pystr \<Rightarrow> filesystem \<Rightarrow> (exn + completed_process) \<times> filesystem" where
  "demo_cat cmd cwd f =
     (case drop 7 cmd of
        [] \<Rightarrow> (Inr \<lparr>returncode = 2, stdout = [], stderr = lit ''no input''\<rparr>, f)
      | p # _ \<Rightarrow>
          (case f p of
             Some (File bs) \<Rightarrow> (Inr \<lparr>returncode = 0, stdout = bs, stderr = []\<rparr>, f)
           | _ \<Rightarrow> (Inr \<lparr>returncode = 2, stdout = [], stderr = lit ''no input''\<rparr>, f)))"

definition demo ::
  "(pystr list \<Rightarrow> pystr \<Rightarrow> filesystem \<Rightarrow> (exn + completed_process) \<times> filesystem) \<Rightarrow> platform" where
  "demo child =
     \<lparr>sys_executable = lit ''/usr/bin/python3'',
      repo_root = lit ''/app'',
      py_int = demo_int,
      read_buffer = demo_read_buffer,
      json_loads = demo_json_loads,
      py_repr = (\<lambda>v. []),
      json_dumps_utf8 = (\<lambda>v. []),
      tmp_candidates = [lit ''/tmp/a'', lit ''/tmp/b''],
      subprocess_run = child\<rparr>"

definition post :: "pystr \<Rightarrow> request" where
  "post n = \<lparr>path = lit ''/deobfuscate'', content_length = Some n\<rparr>"

section \<open>The codec: encoding undoes decoding\<close>

lemma dm64: "y < 64 \<Longrightarrow> (q * 64 + y) div 64 = (q::nat)" "y < 64 \<Longrightarrow> (q * 64 + y) mod 64 = (y::nat)"
  by simp_all

lemma enc_cp3:
  "\<not> c < 2048 \<Longrightarrow> c < 65536 \<Longrightarrow> \<not> (55296 \<le> c \<and> c \<le> 57343) \<Longrightarrow>
   c div 4096 = a \<Longrightarrow> c div 64 mod 64 = x \<Longrightarrow> c mod 64 = y \<Longrightarrow>
   utf8_encode_cp c = Some [224 + a, 128 + x, 128 + y]"
  by (simp add: utf8_encode_cp_def)

lemma enc_cp4:
  "\<not> c < 65536 \<Longrightarrow> c < 1114112 \<Longrightarrow>
   c div 262144 = a \<Longrightarrow> c div 4096 mod 64 = x \<Longrightarrow> c div 64 mod 64 = y \<Longrightarrow> c mod 64 = z \<Longrightarrow>
   utf8_encode_cp c = Some [240 + a, 128 + x, 128 + y, 128 + z]"
  by (simp add: utf8_encode_cp_def)

lemma enc2:
  assumes "194 \<le> b0" "b0 \<le> 223" "is_cont b1"
  shows "utf8_encode_cp ((b0 - 192) * 64 + (b1 - 128)) = Some [b0, b1]"
proof -
  define a where "a = b0 - 192"
  define x where "x = b1 - 128"
  have b: "b0 = 192 + a" "b1 = 128 + x" and r: "2 \<le> a" "a < 32" "x < 64"
    using assms by (auto simp: a_def x_def is_cont_def)
  have "128 \<le> a * 64 + x" "a * 64 + x < 2048"
    using r by linarith+
  then have "utf8_encode_cp (a * 64 + x) = Some [192 + a, 128 + x]"
    using r by (simp add: utf8_encode_cp_def dm64)
  then show ?thesis
    by (simp add: a_def [symmetric] x_def [symmetric] b [symmetric])
qed

lemma enc3:
  assumes "224 \<le> b0" "b0 \<le> 239" "is_cont b1" "is_cont b2"
    and "2048 \<le> (b0 - 224) * 4096 + (b1 - 128) * 64 + (b2 - 128)"
    and "\<not> (55296 \<le> (b0 - 224) * 4096 + (b1 - 128) * 64 + (b2 - 128)
           \<and> (b0 - 224) * 4096 + (b1 - 128) * 64 + (b2 - 128) \<le> 57343)"
  shows "utf8_encode_cp ((b0 - 224) * 4096 + (b1 - 128) * 64 + (b2 - 128)) = Some [b0, b1, b2]"
proof -
  define a where "a = b0 - 224"
  define x where "x = b1 - 128"
  define y where "y = b2 - 128"
  have b: "b0 = 224 + a" "b1 = 128 + x" "b2 = 128 + y" and r: "a < 16" "x < 64" "y < 64"
    using assms by (auto simp: a_def x_def y_def is_cont_def)
  define c where "c = (a * 64 + x) * 64 + y"
  have ceq: "(b0 - 224) * 4096 + (b1 - 128) * 64 + (b2 - 128) = c"
    by (simp add: c_def a_def x_def y_def algebra_simps)
  have c64: "c div 64 = a * 64 + x" "c mod 64 = y"
    unfolding c_def using r(3) by (rule dm64)+
  have c1: "c div 4096 = a"
  proof -
    have "c div 4096 = (c div 64) div 64" by (simp add: div_mult2_eq)
    then show ?thesis unfolding c64 using dm64(1) [OF r(2)] by (simp only:)
  qed
  have c2: "(c div 64) mod 64 = x" unfolding c64 using r(2) by (rule dm64)
  have bound: "c < 65536" using r unfolding c_def by (simp add: algebra_simps)
  have lo: "\<not> c < 2048" "\<not> c < 128" and ns: "\<not> (55296 \<le> c \<and> c \<le> 57343)"
    using assms(5,6) unfolding ceq by simp_all
  have "utf8_encode_cp c = Some [224 + a, 128 + x, 128 + y]"
    by (rule enc_cp3 [OF lo(1) bound ns c1 c2 c64(2)])
  then show ?thesis
    unfolding ceq by (simp add: b [symmetric])
qed

lemma enc4:
  assumes "240 \<le> b0" "b0 \<le> 244" "is_cont b1" "is_cont b2" "is_cont b3"
    and "65536 \<le> (b0 - 240) * 262144 + (b1 - 128) * 4096 + (b2 - 128) * 64 + (b3 - 128)"
    and "(b0 - 240) * 262144 + (b1 - 128) * 4096 + (b2 - 128) * 64 + (b3 - 128) < 1114112"
  shows "utf8_encode_cp ((b0 - 240) * 262144 + (b1 - 128) * 4096 + (b2 - 128) * 64 + (b3 - 128))
         = Some [b0, b1, b2, b3]"
proof -
  define a where "a = b0 - 240"
  define x where "x = b1 - 128"
  define y where "y = b2 - 128"
  define z where "z = b3 - 128"
  have b: "b0 = 240 + a" "b1 = 128 + x" "b2 = 128 + y" "b3 = 128 + z"
    and r: "a < 5" "x < 64" "y < 64" "z < 64"
    using assms by (auto simp: a_def x_def y_def z_def is_cont_def)
  define c where "c = ((a * 64 + x) * 64 + y) * 64 + z"
  have ceq: "(b0 - 240) * 262144 + (b1 - 128) * 4096 + (b2 - 128) * 64 + (b3 - 128) = c"
    by (simp add: c_def a_def x_def y_def z_def algebra_simps)
  have c64: "c div 64 = (a * 64 + x) * 64 + y" "c mod 64 = z"
    unfolding c_def using r(4) by (rule dm64)+
  have c4096: "c div 4096 = a * 64 + x"
  proof -
    have "c div 4096 = (c div 64) div 64" by (simp add: div_mult2_eq)
    then show ?thesis unfolding c64 using dm64(1) [OF r(3)] by (simp only:)
  qed
  have c1: "c div 262144 = a"
  proof -
    have "c div 262144 = (c div 4096) div 64" by (simp add: div_mult2_eq)
    then show ?thesis unfolding c4096 using dm64(1) [OF r(2)] by (simp only:)
  qed
  have c2: "(c div 4096) mod 64 = x" "(c div 64) mod 64 = y"
    unfolding c64 c4096 using dm64(2) [OF r(2)] dm64(2) [OF r(3)] by (simp_all only:)
  have lo: "\<not> c < 65536" "\<not> c < 2048" "\<not> c < 128" and hi: "c < 1114112"
    using assms(6,7) unfolding ceq by simp_all
  have "utf8_encode_cp c = Some [240 + a, 128 + x, 128 + y, 128 + z]"
    by (rule enc_cp4 [OF lo(1) hi c1 c2 c64(2)])
  then show ?thesis
    unfolding ceq by (simp add: b [symmetric])
qed


lemma utf8_encode_decode: "utf8_decode bs = Some t \<Longrightarrow> utf8_encode t = Some bs"
proof (induction bs arbitrary: t rule: utf8_decode.induct)
  case 1
  then show ?case by simp
next
  case (2 b0 bs)
  consider (a) "b0 < 128" | (b) "194 \<le> b0" "b0 \<le> 223" | (c) "224 \<le> b0" "b0 \<le> 239"
    | (d) "240 \<le> b0" "b0 \<le> 244" | (e) "\<not> b0 < 128" "\<not> (194 \<le> b0 \<and> b0 \<le> 223)"
      "\<not> (224 \<le> b0 \<and> b0 \<le> 239)" "\<not> (240 \<le> b0 \<and> b0 \<le> 244)"
    by linarith
  then show ?case
  proof cases
    case a
    with 2(1) 2(5) show ?thesis
      by (auto simp: utf8_encode_cp_def split: option.splits)
  next
    case b
    with 2(2) 2(5) show ?thesis
      by (auto simp: enc2 split: list.splits option.splits if_splits)
  next
    case c
    with 2(3) 2(5) show ?thesis
      by (auto simp: enc3 Let_def split: list.splits option.splits if_splits)
  next
    case d
    with 2(4) 2(5) show ?thesis
      by (auto simp: enc4 Let_def split: list.splits option.splits if_splits)
  next
    case e
    with 2(5) show ?thesis by simp
  qed
qed

section \<open>Newline translation commutes with the codec\<close>

lemma un_ne: "c \<noteq> 13 \<Longrightarrow> universal_newlines (c # xs) = c # universal_newlines xs"
  by (cases xs) simp_all

lemma un_cr: "\<not> (\<exists>ys. xs = 10 # ys) \<Longrightarrow> universal_newlines (13 # xs) = 10 # universal_newlines xs"
  by (cases xs) simp_all

lemma two_byte_ge: "194 \<le> b0 \<Longrightarrow> 128 \<le> (b0 - 192) * 64 + (b1 - 128)" for b0 b1 :: nat
proof -
  assume "194 \<le> b0"
  then have "2 \<le> b0 - 192" by simp
  then have "2 * 64 \<le> (b0 - 192) * 64" by (rule mult_le_mono1)
  then show ?thesis by simp
qed

lemma decode_one:
  "b0 < 128 \<Longrightarrow> utf8_decode (b0 # bs) = (case utf8_decode bs of None \<Rightarrow> None | Some t \<Rightarrow> Some (b0 # t))"
  by simp

lemma decode_head_lf:
  assumes "utf8_decode bs = Some (10 # t)"
  shows "\<exists>r. bs = 10 # r"
proof (cases bs)
  case Nil
  with assms show ?thesis by simp
next
  case (Cons b0 r)
  show ?thesis
  proof (cases "b0 < 128")
    case True
    with assms Cons show ?thesis by (auto split: option.splits)
  next
    case False
    have "False"
      using assms False two_byte_ge [of b0] unfolding Cons
      by (auto simp: Let_def split: if_splits list.splits option.splits)
    then show ?thesis ..
  qed
qed


lemma decode_universal_newlines:
  "utf8_decode bs = Some t \<Longrightarrow> utf8_decode (universal_newlines bs) = Some (universal_newlines t)"
proof (induction bs arbitrary: t rule: length_induct)
  case (1 bs)
  note IH = "1.IH" [rule_format]
  note dec = "1.prems"
  show ?case
  proof (cases bs)
    case Nil
    with dec show ?thesis by simp
  next
    case (Cons b0 r)
    consider (a) "b0 < 128" | (b) "\<not> b0 < 128" "194 \<le> b0" "b0 \<le> 223"
      | (c) "\<not> b0 < 128" "\<not> (194 \<le> b0 \<and> b0 \<le> 223)" "224 \<le> b0" "b0 \<le> 239"
      | (d) "\<not> b0 < 128" "\<not> (194 \<le> b0 \<and> b0 \<le> 223)" "\<not> (224 \<le> b0 \<and> b0 \<le> 239)"
            "240 \<le> b0" "b0 \<le> 244"
      | (e) "\<not> b0 < 128" "\<not> (194 \<le> b0 \<and> b0 \<le> 223)"
            "\<not> (224 \<le> b0 \<and> b0 \<le> 239)" "\<not> (240 \<le> b0 \<and> b0 \<le> 244)"
      by linarith
    then show ?thesis
    proof cases
      case a
      from dec a obtain t' where r: "utf8_decode r = Some t'" and t: "t = b0 # t'"
        unfolding Cons by (auto split: option.splits)
      show ?thesis
      proof (cases "b0 = 13")
        case False
        have "utf8_decode (universal_newlines r) = Some (universal_newlines t')"
          by (rule IH [OF _ r]) (simp add: Cons)
        then show ?thesis
          using a False by (simp add: Cons t un_ne)
      next
        case cr: True
        show ?thesis
        proof (cases "\<exists>r'. r = 10 # r'")
          case True
          then obtain r' where r': "r = 10 # r'" by blast
          from r obtain t'' where r'': "utf8_decode r' = Some t''" and t': "t' = 10 # t''"
            unfolding r' by (auto split: option.splits)
          have "utf8_decode (universal_newlines r') = Some (universal_newlines t'')"
            by (rule IH [OF _ r'']) (simp add: Cons r')
          then show ?thesis
            by (simp add: Cons t cr r' t')
        next
          case False
          have nt: "\<not> (\<exists>ys. t' = 10 # ys)"
            using decode_head_lf r False by blast
          have "utf8_decode (universal_newlines r) = Some (universal_newlines t')"
            by (rule IH [OF _ r]) (simp add: Cons)
          then show ?thesis
            by (simp add: Cons t cr un_cr [OF False] un_cr [OF nt])
        qed
      qed
    next
      case b
      from dec b obtain b1 r' t' where r: "r = b1 # r'" and c1: "is_cont b1"
        and r': "utf8_decode r' = Some t'" and t: "t = ((b0 - 192) * 64 + (b1 - 128)) # t'"
        unfolding Cons by (auto split: list.splits if_splits option.splits)
      have ih: "utf8_decode (universal_newlines r') = Some (universal_newlines t')"
        by (rule IH [OF _ r']) (simp add: Cons r)
      have ne: "b0 \<noteq> 13" "b1 \<noteq> 13" "(b0 - 192) * 64 + (b1 - 128) \<noteq> 13"
        using b c1 two_byte_ge [of b0 b1] by (auto simp: is_cont_def)
      show ?thesis
        using b c1 ih by (simp add: Cons r t un_ne ne)
    next
      case c
      from dec c obtain b1 b2 r' t' where r: "r = b1 # b2 # r'" and c1: "is_cont b1" "is_cont b2"
        and lo: "2048 \<le> (b0 - 224) * 4096 + (b1 - 128) * 64 + (b2 - 128)"
        and ns: "\<not> (55296 \<le> (b0 - 224) * 4096 + (b1 - 128) * 64 + (b2 - 128)
           \<and> (b0 - 224) * 4096 + (b1 - 128) * 64 + (b2 - 128) \<le> 57343)"
        and r': "utf8_decode r' = Some t'"
        and t: "t = ((b0 - 224) * 4096 + (b1 - 128) * 64 + (b2 - 128)) # t'"
        unfolding Cons by (auto simp: Let_def split: list.splits if_splits option.splits)
      have ih: "utf8_decode (universal_newlines r') = Some (universal_newlines t')"
        by (rule IH [OF _ r']) (simp add: Cons r)
      have ne: "b0 \<noteq> 13" "b1 \<noteq> 13" "b2 \<noteq> 13"
        "(b0 - 224) * 4096 + (b1 - 128) * 64 + (b2 - 128) \<noteq> 13"
        using c c1 lo by (auto simp: is_cont_def)
      show ?thesis
        using c c1 lo ns ih by (simp add: Cons r t un_ne ne)
    next
      case d
      from dec d obtain b1 b2 b3 r' t' where r: "r = b1 # b2 # b3 # r'"
        and c1: "is_cont b1" "is_cont b2" "is_cont b3"
        and lo: "65536 \<le> (b0 - 240) * 262144 + (b1 - 128) * 4096 + (b2 - 128) * 64 + (b3 - 128)"
        and hi: "(b0 - 240) * 262144 + (b1 - 128) * 4096 + (b2 - 128) * 64 + (b3 - 128) < 1114112"
        and r': "utf8_decode r' = Some t'"
        and t: "t = ((b0 - 240) * 262144 + (b1 - 128) * 4096 + (b2 - 128) * 64 + (b3 - 128)) # t'"
        unfolding Cons by (auto simp: Let_def split: list.splits if_splits option.splits)
      have ih: "utf8_decode (universal_newlines r') = Some (universal_newlines t')"
        by (rule IH [OF _ r']) (simp add: Cons r)
      have ne: "b0 \<noteq> 13" "b1 \<noteq> 13" "b2 \<noteq> 13" "b3 \<noteq> 13"
        "(b0 - 240) * 262144 + (b1 - 128) * 4096 + (b2 - 128) * 64 + (b3 - 128) \<noteq> 13"
        using d c1 lo by (auto simp: is_cont_def)
      show ?thesis
        using d c1 lo hi ih by (simp add: Cons r t un_ne ne)
    next
      case e
      with dec show ?thesis unfolding Cons by simp
    qed
  qed
qed

lemma universal_newlines_no_cr: "13 \<notin> set bs \<Longrightarrow> universal_newlines bs = bs"
  by (induction bs rule: universal_newlines.induct) auto

lemma read_then_encode:
  assumes "utf8_decode bs = Some t"
  shows "utf8_encode (universal_newlines t) = Some (universal_newlines bs)"
  by (rule utf8_encode_decode [OF decode_universal_newlines [OF assms]])

section \<open>The handler, case by case\<close>

lemma sent_append [simp]: "sent (xs @ ys) = sent xs @ sent ys"
  by (induction xs rule: sent.induct) simp_all
lemma writes_append [simp]: "writes (xs @ ys) = writes xs @ writes ys"
  by (induction xs rule: writes.induct) simp_all
lemma runs_append [simp]: "runs (xs @ ys) = runs xs @ runs ys"
  by (induction xs rule: runs.induct) simp_all

lemma staged_run_unenc:
  "utf8_encode s = None \<Longrightarrow>
   staged_run P s k d w =
     (Inl UnicodeEncodeError,
      \<lparr>fs = (fs w)(joinpath d (lit ''input.lua'') \<mapsto> File []), rfile = rfile w,
       trace = trace w @ [WriteText (joinpath d (lit ''input.lua'')) s]\<rparr>)"
  by (simp add: staged_run_def write_text_def emit_def Let_def)

lemma staged_run_enc:
  "utf8_encode s = Some bs \<Longrightarrow>
   subprocess_run P (spec_argv P (joinpath d (lit ''input.lua'')) k) (repo_root P)
     ((fs w)(joinpath d (lit ''input.lua'') \<mapsto> File bs)) = (r, f') \<Longrightarrow>
   staged_run P s k d w =
     (r, \<lparr>fs = f', rfile = rfile w,
          trace = trace w @ [WriteText (joinpath d (lit ''input.lua'')) s,
                             Run (spec_argv P (joinpath d (lit ''input.lua'')) k) (repo_root P) r]\<rparr>)"
  by (cases "k = []") (simp_all add: staged_run_def write_text_def run_def emit_def spec_argv_def Let_def)

lemma with_tmpdir_full:
  "find (\<lambda>n. fs w n = None) (tmp_candidates P) = None \<Longrightarrow>
   with_tmpdir P s k w = (Inl OSError, w)"
  by (simp add: with_tmpdir_def TemporaryDirectory_def)

lemma with_tmpdir_unenc:
  "find (\<lambda>n. fs w n = None) (tmp_candidates P) = Some d \<Longrightarrow> utf8_encode s = None \<Longrightarrow>
   with_tmpdir P s k w =
     (Inl UnicodeEncodeError,
      \<lparr>fs = (\<lambda>p. if under d p then None
                 else ((fs w)(d \<mapsto> Dir, joinpath d (lit ''input.lua'') \<mapsto> File [])) p),
       rfile = rfile w,
       trace = trace w @ [Mkdtemp d, WriteText (joinpath d (lit ''input.lua'')) s, Rmtree d]\<rparr>)"
  by (simp add: with_tmpdir_def TemporaryDirectory_def staged_run_unenc cleanup_def emit_def cong: if_cong)

lemma with_tmpdir_enc:
  "find (\<lambda>n. fs w n = None) (tmp_candidates P) = Some d \<Longrightarrow> utf8_encode s = Some bs \<Longrightarrow>
   subprocess_run P (spec_argv P (joinpath d (lit ''input.lua'')) k) (repo_root P)
     ((fs w)(d \<mapsto> Dir, joinpath d (lit ''input.lua'') \<mapsto> File bs)) = (r, f') \<Longrightarrow>
   with_tmpdir P s k w =
     (r, \<lparr>fs = (\<lambda>p. if under d p then None else f' p), rfile = rfile w,
          trace = trace w @ [Mkdtemp d, WriteText (joinpath d (lit ''input.lua'')) s,
                             Run (spec_argv P (joinpath d (lit ''input.lua'')) k) (repo_root P) r,
                             Rmtree d]\<rparr>)"
  by (simp add: with_tmpdir_def TemporaryDirectory_def staged_run_enc cleanup_def emit_def cong: if_cong)






lemma with_tmpdir_shape:
  obtains
    (full) "with_tmpdir P s k w = (Inl OSError, w)"
      "find (\<lambda>n. fs w n = None) (tmp_candidates P) = None"
  | (unenc) d where "find (\<lambda>n. fs w n = None) (tmp_candidates P) = Some d"
      "utf8_encode s = None"
      "fst (with_tmpdir P s k w) = Inl UnicodeEncodeError"
      "trace (snd (with_tmpdir P s k w)) =
         trace w @ [Mkdtemp d, WriteText (joinpath d (lit ''input.lua'')) s, Rmtree d]"
      "\<And>p. under d p \<Longrightarrow> fs (snd (with_tmpdir P s k w)) p = None"
  | (ran) d r where "find (\<lambda>n. fs w n = None) (tmp_candidates P) = Some d"
      "utf8_encode s \<noteq> None"
      "fst (with_tmpdir P s k w) = r"
      "trace (snd (with_tmpdir P s k w)) =
         trace w @ [Mkdtemp d, WriteText (joinpath d (lit ''input.lua'')) s,
                    Run (spec_argv P (joinpath d (lit ''input.lua'')) k) (repo_root P) r,
                    Rmtree d]"
      "\<And>p. under d p \<Longrightarrow> fs (snd (with_tmpdir P s k w)) p = None"
proof (cases "find (\<lambda>n. fs w n = None) (tmp_candidates P)")
  case None
  then show ?thesis using full by (simp add: with_tmpdir_full)
next
  case (Some d)
  show ?thesis
  proof (cases "utf8_encode s")
    case None
    show ?thesis
      by (rule unenc [OF Some None]) (simp_all add: with_tmpdir_unenc [OF Some None])
  next
    case (Some bs)
    obtain r f' where sub:
      "subprocess_run P (spec_argv P (joinpath d (lit ''input.lua'')) k) (repo_root P)
         ((fs w)(d \<mapsto> Dir, joinpath d (lit ''input.lua'') \<mapsto> File bs)) = (r, f')"
      by (cases "subprocess_run P (spec_argv P (joinpath d (lit ''input.lua'')) k) (repo_root P)
         ((fs w)(d \<mapsto> Dir, joinpath d (lit ''input.lua'') \<mapsto> File bs))") 
    from Some have ne: "utf8_encode s \<noteq> None" by simp
    show ?thesis
      by (rule ran [OF \<open>find _ _ = Some d\<close> ne, of r])
         (simp_all add: with_tmpdir_enc [OF \<open>find _ _ = Some d\<close> Some sub])
  qed
qed

lemma payload_not_dict:
  "\<not> (\<exists>kv. payload = PDict kv) \<Longrightarrow> do_POST_payload P payload w = (Some AttributeError, w)"
  by (cases payload) (simp_all add: do_POST_payload_def dict_get_def)

lemma payload_blank:
  "strip (source_text P kv) = [] \<Longrightarrow>
   do_POST_payload P (PDict kv) w = (None, send_json P rejection 400 w)"
  by (simp add: do_POST_payload_def dict_get_def source_text_def Let_def)

lemma payload_valid:
  "strip (source_text P kv) \<noteq> [] \<Longrightarrow>
   do_POST_payload P (PDict kv) w =
     (case with_tmpdir P (source_text P kv) (script_key_text P kv) w of
        (Inl e, w') \<Rightarrow> (Some e, w')
      | (Inr result, w') \<Rightarrow> (None, send_json P (result_payload result) 200 w'))"
  by (simp add: do_POST_payload_def dict_get_def source_text_def script_key_text_def Let_def)

lemma send_json_trace:
  "trace (send_json P v st w) =
     trace w @ [Respond \<lparr>status = st,
        headers = [(lit ''Content-Type'', lit ''application/json; charset=utf-8''),
                   (lit ''Content-Length'', dec (length (json_dumps_utf8 P v)))],
        content = JsonOf v\<rparr>]"
  and send_json_fs: "fs (send_json P v st w) = fs w"
  and send_json_rfile: "rfile (send_json P v st w) = rfile w"
  by (simp_all add: send_json_def emit_def Let_def)

lemma read_request_json_keeps:
  "trace (snd (read_request_json P req w)) = trace w"
  "fs (snd (read_request_json P req w)) = fs w"
  by (simp_all add: read_request_json_def Let_def split: option.splits sum.splits)




lemma do_POST_shape:
  fixes P req w
  defines "W \<equiv> do_POST P req w"
  obtains
    (not_found) "path req \<noteq> lit ''/deobfuscate''"
      "W = send_error 404 (lit ''Not Found'') w"
  | (raised) e where "path req = lit ''/deobfuscate''"
      "fst W = Some e" "trace (snd W) = trace w" "fs (snd W) = fs w"
  | (rejected) kv where "path req = lit ''/deobfuscate''"
      "fst (read_request_json P req w) = Inr (PDict kv)" "strip (source_text P kv) = []"
      "fst W = None" "trace (snd W) = trace w @ [Respond (json_response P 400 rejection)]"
      "fs (snd W) = fs w"
  | (unenc) kv d where "path req = lit ''/deobfuscate''"
      "fst (read_request_json P req w) = Inr (PDict kv)" "strip (source_text P kv) \<noteq> []"
      "find (\<lambda>n. fs w n = None) (tmp_candidates P) = Some d"
      "utf8_encode (source_text P kv) = None"
      "fst W = Some UnicodeEncodeError"
      "trace (snd W) =
         trace w @ [Mkdtemp d, WriteText (joinpath d (lit ''input.lua'')) (source_text P kv),
                    Rmtree d]"
      "\<And>p. under d p \<Longrightarrow> fs (snd W) p = None"
  | (failed) kv d e where "path req = lit ''/deobfuscate''"
      "fst (read_request_json P req w) = Inr (PDict kv)" "strip (source_text P kv) \<noteq> []"
      "find (\<lambda>n. fs w n = None) (tmp_candidates P) = Some d"
      "utf8_encode (source_text P kv) \<noteq> None"
      "fst W = Some e"
      "trace (snd W) =
         trace w @ [Mkdtemp d, WriteText (joinpath d (lit ''input.lua'')) (source_text P kv),
                    Run (spec_argv P (joinpath d (lit ''input.lua'')) (script_key_text P kv))
                        (repo_root P) (Inl e),
                    Rmtree d]"
      "\<And>p. under d p \<Longrightarrow> fs (snd W) p = None"
  | (completed) kv d cp where "path req = lit ''/deobfuscate''"
      "fst (read_request_json P req w) = Inr (PDict kv)" "strip (source_text P kv) \<noteq> []"
      "find (\<lambda>n. fs w n = None) (tmp_candidates P) = Some d"
      "utf8_encode (source_text P kv) \<noteq> None"
      "fst W = None"
      "trace (snd W) =
         trace w @ [Mkdtemp d, WriteText (joinpath d (lit ''input.lua'')) (source_text P kv),
                    Run (spec_argv P (joinpath d (lit ''input.lua'')) (script_key_text P kv))
                        (repo_root P) (Inr cp),
                    Rmtree d,
                    Respond (json_response P 200 (result_payload cp))]"
      "\<And>p. under d p \<Longrightarrow> fs (snd W) p = None"
proof (cases "path req = lit ''/deobfuscate''")
  case False
  then show ?thesis using not_found by (simp add: W_def do_POST_def)
next
  case path: True
  obtain res w1 where rr: "read_request_json P req w = (res, w1)"
    by (cases "read_request_json P req w")
  have keep: "trace w1 = trace w" "fs w1 = fs w"
    using read_request_json_keeps [of P req w] by (simp_all add: rr)
  show ?thesis
  proof (cases res)
    case (Inl e)
    show ?thesis
      by (rule raised [OF path, of e]) (simp_all add: W_def do_POST_def path rr Inl keep)
  next
    case (Inr payload)
    have W: "W = do_POST_payload P payload w1"
      by (simp add: W_def do_POST_def path rr Inr)
    show ?thesis
    proof (cases "\<exists>kv. payload = PDict kv")
      case False
      show ?thesis
        by (rule raised [OF path, of AttributeError])
           (simp_all add: W payload_not_dict [OF False] keep)
    next
      case True
      then obtain kv where kv: "payload = PDict kv" by blast
      have dec: "fst (read_request_json P req w) = Inr (PDict kv)"
        by (simp add: rr Inr kv)
      show ?thesis
      proof (cases "strip (source_text P kv) = []")
        case blank: True
        show ?thesis
          by (rule rejected [OF path dec blank])
             (simp_all add: W kv payload_blank [OF blank] send_json_trace send_json_fs keep
                json_response_def)
      next
        case valid: False
        note W' = W [unfolded kv payload_valid [OF valid]]
        show ?thesis
        proof (cases rule: with_tmpdir_shape [of P "source_text P kv" "script_key_text P kv" w1])
          case full
          show ?thesis
            by (rule raised [OF path, of OSError]) (simp_all add: W' full(1) keep)
        next
          case (unenc d)
          show ?thesis
          proof (rule that(4) [OF path dec valid _ unenc(2), of d])
            show "find (\<lambda>n. fs w n = None) (tmp_candidates P) = Some d"
              using unenc(1) by (simp add: keep)
            show "fst W = Some UnicodeEncodeError"
              using unenc(3) by (auto simp: W' split: prod.splits sum.splits)
            show "trace (snd W) =
              trace w @ [Mkdtemp d, WriteText (joinpath d (lit ''input.lua'')) (source_text P kv),
                    Rmtree d]"
              using unenc(3,4) by (auto simp: W' keep split: prod.splits sum.splits)
            show "\<And>p. under d p \<Longrightarrow> fs (snd W) p = None"
              using unenc(3,5) by (auto simp: W' split: prod.splits sum.splits)
          qed
        next
          case (ran d r)
          have fd: "find (\<lambda>n. fs w n = None) (tmp_candidates P) = Some d"
            using ran(1) by (simp add: keep)
          show ?thesis
          proof (cases r)
            case (Inl e)
            show ?thesis
            proof (rule failed [OF path dec valid fd ran(2), of e])
              show "fst W = Some e"
                using ran(3) by (auto simp: W' Inl split: prod.splits sum.splits)
              show "trace (snd W) =
                 trace w @ [Mkdtemp d, WriteText (joinpath d (lit ''input.lua'')) (source_text P kv),
                    Run (spec_argv P (joinpath d (lit ''input.lua'')) (script_key_text P kv))
                        (repo_root P) (Inl e),
                    Rmtree d]"
                using ran(3,4) by (auto simp: W' Inl keep split: prod.splits sum.splits)
              show "\<And>p. under d p \<Longrightarrow> fs (snd W) p = None"
                using ran(3,5) by (auto simp: W' Inl split: prod.splits sum.splits)
            qed
          next
            case (Inr cp)
            show ?thesis
            proof (rule completed [OF path dec valid fd ran(2), of cp])
              show "fst W = None"
                using ran(3) by (auto simp: W' Inr split: prod.splits sum.splits)
              show "trace (snd W) =
                 trace w @ [Mkdtemp d, WriteText (joinpath d (lit ''input.lua'')) (source_text P kv),
                    Run (spec_argv P (joinpath d (lit ''input.lua'')) (script_key_text P kv))
                        (repo_root P) (Inr cp),
                    Rmtree d,
                    Respond (json_response P 200 (result_payload cp))]"
                using ran(3,4)
                by (auto simp: W' Inr keep send_json_trace json_response_def
                      split: prod.splits sum.splits)
              show "\<And>p. under d p \<Longrightarrow> fs (snd W) p = None"
                using ran(3,5) by (auto simp: W' Inr send_json_fs split: prod.splits sum.splits)
            qed
          qed
        qed
      qed
    qed
  qed
qed

lemma strip_blank: "\<forall>c \<in> set s. py_isspace c \<Longrightarrow> strip s = []"
proof -
  assume "\<forall>c \<in> set s. py_isspace c"
  then have d: "dropWhile py_isspace s = []" by (induction s) simp_all
  show ?thesis unfolding strip_def d by simp
qed

lemma strip_Nil: "strip [] = []"
  by (simp add: strip_def)

lemma source_text_blank:
  assumes "map_of kv (lit ''source'') = None
     \<or> (\<exists>s. map_of kv (lit ''source'') = Some (PStr s) \<and> (\<forall>c \<in> set s. py_isspace c))"
  shows "strip (source_text P kv) = []"
  using assms
  by (auto simp: source_text_def py_or_def py_str_def strip_blank strip_Nil)

lemma do_POST_decoded:
  assumes "path req = lit ''/deobfuscate''"
    and "fst (read_request_json P req w) = Inr payload"
  shows "do_POST P req w = do_POST_payload P payload (snd (read_request_json P req w))"
  using assms by (cases "read_request_json P req w") (simp add: do_POST_def)

lemma do_POST_valid:
  assumes "path req = lit ''/deobfuscate''"
    and "fst (read_request_json P req w) = Inr (PDict kv)"
    and "strip (source_text P kv) \<noteq> []"
    and "find (\<lambda>n. fs w n = None) (tmp_candidates P) = Some d"
    and "utf8_encode (source_text P kv) = Some bs"
  shows "\<exists>r. trace (snd (do_POST P req w)) =
           trace w @
           [Mkdtemp d,
            WriteText (joinpath d (lit ''input.lua'')) (source_text P kv),
            Run (spec_argv P (joinpath d (lit ''input.lua'')) (script_key_text P kv)) (repo_root P) r,
            Rmtree d]
           @ (case r of Inl e \<Rightarrow> [] | Inr cp \<Rightarrow> [Respond (json_response P 200 (result_payload cp))])"
proof -
  define w1 where "w1 = snd (read_request_json P req w)"
  have keep: "trace w1 = trace w" "fs w1 = fs w"
    by (simp_all add: w1_def read_request_json_keeps)
  obtain r f' where sub:
    "subprocess_run P (spec_argv P (joinpath d (lit ''input.lua'')) (script_key_text P kv))
       (repo_root P) ((fs w1)(d \<mapsto> Dir, joinpath d (lit ''input.lua'') \<mapsto> File bs)) = (r, f')"
    by (cases "subprocess_run P (spec_argv P (joinpath d (lit ''input.lua'')) (script_key_text P kv))
       (repo_root P) ((fs w1)(d \<mapsto> Dir, joinpath d (lit ''input.lua'') \<mapsto> File bs))")
  have fd: "find (\<lambda>n. fs w1 n = None) (tmp_candidates P) = Some d"
    using assms(4) by (simp add: keep)
  have "do_POST P req w = do_POST_payload P (PDict kv) w1"
    unfolding w1_def by (rule do_POST_decoded [OF assms(1,2)])
  then have "trace (snd (do_POST P req w)) =
           trace w @
           [Mkdtemp d,
            WriteText (joinpath d (lit ''input.lua'')) (source_text P kv),
            Run (spec_argv P (joinpath d (lit ''input.lua'')) (script_key_text P kv)) (repo_root P) r,
            Rmtree d]
           @ (case r of Inl e \<Rightarrow> [] | Inr cp \<Rightarrow> [Respond (json_response P 200 (result_payload cp))])"
    by (cases r)
       (simp_all add: payload_valid [OF assms(3)] with_tmpdir_enc [OF fd assms(5) sub] keep
          send_json_trace json_response_def)
  then show ?thesis ..
qed

lemma map_of_filter_key:
  "map_of (filter (\<lambda>e. fst e \<noteq> k) kv) k' = (if k' = k then None else map_of kv k')"
  by (induction kv) auto

lemma payload_cong:
  assumes "source_text P kv = source_text P kv'"
    and "script_key_text P kv = script_key_text P kv'"
  shows "do_POST_payload P (PDict kv) w = do_POST_payload P (PDict kv') w"
proof (cases "strip (source_text P kv) = []")
  case True
  then have "strip (source_text P kv') = []" by (simp add: assms(1))
  with True show ?thesis by (simp add: payload_blank)
next
  case False
  then have "strip (source_text P kv') \<noteq> []" by (simp add: assms(1))
  with False show ?thesis by (simp add: payload_valid assms)
qed

lemma lit_source_ne_key: "lit ''source'' \<noteq> lit ''script_key''"
  by (simp add: lit_def)

text \<open>
  For a payload that is a \<open>dict\<close>, a \<open>source\<close> that is absent, empty or all whitespace is
  rejected: the one response has status 400, \<open>ok\<close> false and a non-empty \<open>error\<close>, and the
  handler does nothing else.
\<close>

lemma decoded_blank_source_rejected:
  assumes "path req = lit ''/deobfuscate''"
    and "fst (read_request_json P req (fresh f b)) = Inr (PDict kv)"
    and "map_of kv (lit ''source'') = None
         \<or> (\<exists>s. map_of kv (lit ''source'') = Some (PStr s) \<and> (\<forall>c \<in> set s. py_isspace c))"
  shows "fst (do_POST P req (fresh f b)) = None
       \<and> trace (snd (do_POST P req (fresh f b))) =
           [Respond (json_response P 400
              (PDict [(lit ''ok'', PBool False),
                      (lit ''error'', PStr (lit ''No source provided.''))]))]
       \<and> status (json_response P 400
              (PDict [(lit ''ok'', PBool False),
                      (lit ''error'', PStr (lit ''No source provided.''))])) = 400
       \<and> lit ''No source provided.'' \<noteq> []
       \<and> fs (snd (do_POST P req (fresh f b))) = f"
proof -
  have "do_POST P req (fresh f b) =
          (None, send_json P rejection 400 (snd (read_request_json P req (fresh f b))))"
    by (simp add: do_POST_decoded [OF assms(1,2)] payload_blank [OF source_text_blank [OF assms(3)]])
  then show ?thesis
    by (simp add: send_json_trace send_json_fs read_request_json_keeps json_response_def
          rejection_def fresh_def lit_def)
qed


section \<open>The claims\<close>

text \<open>The definitions an instance unfolds to compute a run of the handler.\<close>

lemmas ev = lit_def demo_def demo_int_def demo_json_loads_def demo_tool_def no_interpreter_def post_def
  demo_read_buffer_def demo_cat_def body_keyed_def body_print_def body_null_def body_list_def
  body_bare_null_def
  do_POST_def do_POST_payload_def read_request_json_def with_tmpdir_def staged_run_def run_def
  TemporaryDirectory_def cleanup_def write_text_def send_json_def send_error_def emit_def fresh_def
  dict_get_def py_or_def py_str_def strip_def py_isspace_def joinpath_def under_def utf8_encode_cp_def
  is_cont_def rejection_def result_payload_def Let_def json_response_def
  do_GET_def read_text_def send_html_def INDEX_PATH_def source_text_def script_key_text_def

text \<open>
  C1. Whenever the child process of a \<open>POST /deobfuscate\<close> request runs to completion,
  the handler sends exactly one response; it has status 200 and is the JSON object whose
  \<open>ok\<close> field is true if and only if the exit code is 0, and whose \<open>returncode\<close>,
  \<open>output\<close> and \<open>stderr\<close> fields are the exit code and the two captured streams.
\<close>

theorem C1_ok_iff_returncode_zero:
  assumes "Run cmd cwd (Inr cp) \<in> set (trace (snd (do_POST P req (fresh f b))))"
  shows "sent (trace (snd (do_POST P req (fresh f b)))) =
           [Respond (json_response P 200
              (PDict [(lit ''ok'', PBool (returncode cp = 0)),
                      (lit ''returncode'', PInt (returncode cp)),
                      (lit ''output'', PStr (stdout cp)),
                      (lit ''stderr'', PStr (stderr cp))]))]"
proof (cases rule: do_POST_shape [of req P "fresh f b"])
  case not_found
  with assms show ?thesis by (simp add: send_error_def emit_def fresh_def)
next
  case (raised e)
  with assms show ?thesis by (simp add: fresh_def)
next
  case (rejected kv)
  with assms show ?thesis by (simp add: fresh_def)
next
  case (unenc kv d)
  with assms show ?thesis by (simp add: fresh_def)
next
  case (failed kv d e)
  with assms show ?thesis by (simp add: fresh_def)
next
  case (completed kv d cp')
  from assms [unfolded completed(7)] have "cp' = cp" by (simp add: fresh_def)
  then show ?thesis unfolding completed(7) by (simp add: fresh_def result_payload_def)
qed

theorem C1_witness:
  "Run [lit ''/usr/bin/python3'', lit ''/app/main.py'', lit ''--format'', lit ''lua'',
        lit ''--no-report'', lit ''--no-execute-output'', lit ''--force'', lit ''/tmp/a/input.lua'']
       (lit ''/app'') (Inr \<lparr>returncode = 1, stdout = lit ''done'', stderr = []\<rparr>)
     \<in> set (trace (snd (do_POST (demo (demo_tool 1)) (post (lit ''22'')) (fresh Map.empty body_print))))
   \<and> sent (trace (snd (do_POST (demo (demo_tool 1)) (post (lit ''22'')) (fresh Map.empty body_print))))
     = [Respond (json_response (demo (demo_tool 1)) 200
          (PDict [(lit ''ok'', PBool False), (lit ''returncode'', PInt 1),
                  (lit ''output'', PStr (lit ''done'')), (lit ''stderr'', PStr [])]))]"
proof -
  have h: "Run [lit ''/usr/bin/python3'', lit ''/app/main.py'', lit ''--format'', lit ''lua'',
        lit ''--no-report'', lit ''--no-execute-output'', lit ''--force'', lit ''/tmp/a/input.lua'']
       (lit ''/app'') (Inr \<lparr>returncode = 1, stdout = lit ''done'', stderr = []\<rparr>)
     \<in> set (trace (snd (do_POST (demo (demo_tool 1)) (post (lit ''22'')) (fresh Map.empty body_print))))"
    by (simp add: ev)
  show ?thesis
    using h C1_ok_iff_returncode_zero [OF h] by simp
qed

text \<open>
  C2. If the handler of a \<open>POST /deobfuscate\<close> request created a staging directory,
  then when the handler is done neither the directory nor any path below it exists,
  whether the handler returned or raised: the statement does not look at how it ended.
  (\<open>under d d\<close> holds, so \<open>p\<close> may be the directory itself.)
\<close>

theorem C2_staging_directory_removed:
  assumes "Mkdtemp d \<in> set (trace (snd (do_POST P req (fresh f b))))" and "under d p"
  shows "fs (snd (do_POST P req (fresh f b))) p = None"
proof (cases rule: do_POST_shape [of req P "fresh f b"])
  case not_found
  with assms show ?thesis by (simp add: send_error_def emit_def fresh_def)
next
  case (raised e)
  with assms show ?thesis by (simp add: fresh_def)
next
  case (rejected kv)
  with assms show ?thesis by (simp add: fresh_def)
next
  case (unenc kv d')
  from assms(1) [unfolded unenc(7)] have "d' = d" by (simp add: fresh_def)
  with unenc(8) assms(2) show ?thesis by simp
next
  case (failed kv d' e)
  from assms(1) [unfolded failed(7)] have "d' = d" by (simp add: fresh_def)
  with failed(8) assms(2) show ?thesis by simp
next
  case (completed kv d' cp)
  from assms(1) [unfolded completed(7)] have "d' = d" by (simp add: fresh_def)
  with completed(8) assms(2) show ?thesis by simp
qed

theorem C2_witness:
  "Mkdtemp (lit ''/tmp/a'')
     \<in> set (trace (snd (do_POST (demo (demo_tool 1)) (post (lit ''22'')) (fresh Map.empty body_print))))
   \<and> under (lit ''/tmp/a'') (lit ''/tmp/a'')
   \<and> fs (snd (do_POST (demo (demo_tool 1)) (post (lit ''22'')) (fresh Map.empty body_print)))
        (lit ''/tmp/a'') = None"
proof -
  have h: "Mkdtemp (lit ''/tmp/a'')
     \<in> set (trace (snd (do_POST (demo (demo_tool 1)) (post (lit ''22'')) (fresh Map.empty body_print))))"
    by (simp add: ev)
  have u: "under (lit ''/tmp/a'') (lit ''/tmp/a'')"
    by (simp add: under_def)
  show ?thesis
    using h u C2_staging_directory_removed [OF h u] by simp
qed

text \<open>
  C3. A request whose body is the JSON value \<open>null\<close> has no \<open>source\<close>. The decoder
  returns \<open>None\<close>, \<open>payload.get\<close> raises \<open>AttributeError\<close>, and the handler ends with that
  exception: no 400 response is written, and nothing else either.
\<close>

theorem C3_sourceless_body_not_rejected:
  "fst (read_request_json (demo (demo_tool 0)) (post (lit ''4'')) (fresh Map.empty body_bare_null))
     = Inr PNone
   \<and> dict_get PNone (lit ''source'') = Inl AttributeError
   \<and> do_POST (demo (demo_tool 0)) (post (lit ''4'')) (fresh Map.empty body_bare_null)
     = (Some AttributeError, \<lparr>fs = Map.empty, rfile = [], trace = []\<rparr>)"
  by (simp add: ev)

text \<open>
  C4. For a \<open>POST /deobfuscate\<close> request that passes validation and is staged (the
  payload is a \<open>dict\<close>, \<open>source\<close> is not blank and can be encoded, a directory name is
  free), exactly one child process runs: its argument vector is the interpreter, the
  entry point \<open>main.py\<close> under the repository root, \<open>--format lua --no-report
  --no-execute-output --force\<close>, the staged file, and then \<open>--script-key\<close> with the
  trimmed key exactly when that key is not empty; its working directory is the
  repository root.
\<close>

theorem C4_argument_vector:
  assumes "path req = lit ''/deobfuscate''"
    and "fst (read_request_json P req (fresh f b)) = Inr (PDict kv)"
    and "strip (source_text P kv) \<noteq> []"
    and "find (\<lambda>n. f n = None) (tmp_candidates P) = Some d"
    and "utf8_encode (source_text P kv) = Some bs"
  shows "runs (trace (snd (do_POST P req (fresh f b)))) =
           [([sys_executable P, joinpath (repo_root P) (lit ''main.py''),
              lit ''--format'', lit ''lua'', lit ''--no-report'', lit ''--no-execute-output'',
              lit ''--force'', joinpath d (lit ''input.lua'')]
             @ (if script_key_text P kv \<noteq> [] then [lit ''--script-key'', script_key_text P kv]
                else []),
             repo_root P)]"
proof -
  have fd: "find (\<lambda>n. fs (fresh f b) n = None) (tmp_candidates P) = Some d"
    using assms(4) by (simp add: fresh_def)
  from do_POST_valid [OF assms(1,2,3) fd assms(5)] obtain r where
    "trace (snd (do_POST P req (fresh f b))) =
           trace (fresh f b) @
           [Mkdtemp d,
            WriteText (joinpath d (lit ''input.lua'')) (source_text P kv),
            Run (spec_argv P (joinpath d (lit ''input.lua'')) (script_key_text P kv)) (repo_root P) r,
            Rmtree d]
           @ (case r of Inl e \<Rightarrow> [] | Inr cp \<Rightarrow> [Respond (json_response P 200 (result_payload cp))])"
    by blast
  then show ?thesis
    by (cases r) (simp_all add: fresh_def spec_argv_def)
qed




theorem C4_witness:
  "path (post (lit ''38'')) = lit ''/deobfuscate''
   \<and> fst (read_request_json (demo (demo_tool 0)) (post (lit ''38'')) (fresh Map.empty body_keyed))
       = Inr (PDict [(lit ''source'', PStr (lit '' x '')), (lit ''script_key'', PStr (lit '' k ''))])
   \<and> runs (trace (snd (do_POST (demo (demo_tool 0)) (post (lit ''38'')) (fresh Map.empty body_keyed))))
       = [([lit ''/usr/bin/python3'', lit ''/app/main.py'', lit ''--format'', lit ''lua'',
            lit ''--no-report'', lit ''--no-execute-output'', lit ''--force'',
            lit ''/tmp/a/input.lua'', lit ''--script-key'', lit ''k''],
           lit ''/app'')]"
proof -
  let ?P = "demo (demo_tool 0)"
  let ?kv = "[(lit ''source'', PStr (lit '' x '')), (lit ''script_key'', PStr (lit '' k ''))]"
  have p: "path (post (lit ''38'')) = lit ''/deobfuscate''"
    by (simp add: post_def)
  have d: "fst (read_request_json ?P (post (lit ''38'')) (fresh Map.empty body_keyed)) = Inr (PDict ?kv)"
    by (simp add: ev)
  have s: "strip (source_text ?P ?kv) \<noteq> []"
    by (simp add: ev)
  have f: "find (\<lambda>n. Map.empty n = None) (tmp_candidates ?P) = Some (lit ''/tmp/a'')"
    by (simp add: ev)
  have e: "utf8_encode (source_text ?P ?kv) = Some (lit '' x '')"
    by (simp add: ev)
  show ?thesis
    using p d C4_argument_vector [OF p d s f e] by (simp add: ev)
qed



text \<open>
  C8, as the specification states it, fails on a declared length that a read cannot
  take: for \<open>Content-Length: 9223372036854775808\<close> and a stream that does hold \<open>2^63\<close>
  octets, \<open>rfile.read\<close> raises \<open>OverflowError\<close> and the decoder has read nothing.
\<close>

theorem C8_unreadable_length_counterexample:
  "content_length (post (lit ''9223372036854775808'')) = Some (lit ''9223372036854775808'')
   \<and> py_int (demo (demo_tool 0)) (lit ''9223372036854775808'') = Some 9223372036854775808
   \<and> length huge_body = 9223372036854775808
   \<and> fst (read_request_json (demo (demo_tool 0)) (post (lit ''9223372036854775808''))
            (fresh Map.empty huge_body)) = Inl OverflowError
   \<and> rfile (snd (read_request_json (demo (demo_tool 0)) (post (lit ''9223372036854775808''))
            (fresh Map.empty huge_body))) = huge_body"
proof -
  have i: "py_int (demo (demo_tool 0)) (lit ''9223372036854775808'') = Some 9223372036854775808"
    by (simp add: demo_def demo_int_def lit_def)
  have l: "length huge_body = 9223372036854775808"
    by (simp add: huge_body_def)
  have b: "read_buffer (demo (demo_tool 0)) 9223372036854775808 = Some OverflowError"
    by (simp add: demo_def demo_read_buffer_def)
  show ?thesis
    by (simp add: i l b read_request_json_def post_def fresh_def)
qed

text \<open>
  C8, amended. When the \<open>Content-Length\<close> header declares a positive number of octets
  for which the read gets its buffer, and the stream holds that many, the decoder takes
  exactly that many from the stream: the stream before the call is those octets followed
  by the stream after it. When the header is absent or declares a number that is not
  positive, it takes nothing and returns the empty payload.
\<close>

theorem C8_reads_declared_length:
  "(content_length req = Some h \<and> py_int P h = Some n \<and> 0 < n \<and> read_buffer P n = None
      \<and> nat n \<le> length (rfile w)
      \<longrightarrow> (\<exists>raw. rfile w = raw @ rfile (snd (read_request_json P req w)) \<and> int (length raw) = n))
   \<and> (content_length req = None
        \<or> (\<exists>h n. content_length req = Some h \<and> py_int P h = Some n \<and> n \<le> 0)
      \<longrightarrow> rfile (snd (read_request_json P req w)) = rfile w
          \<and> fst (read_request_json P req w) = Inr (PDict []))"
proof (intro conjI impI)
  assume a: "content_length req = Some h \<and> py_int P h = Some n \<and> 0 < n \<and> read_buffer P n = None
      \<and> nat n \<le> length (rfile w)"
  then have "rfile (snd (read_request_json P req w)) = drop (nat n) (rfile w)"
    by (simp add: read_request_json_def Let_def split: option.splits sum.splits)
  then have "rfile w = take (nat n) (rfile w) @ rfile (snd (read_request_json P req w))"
    by simp
  moreover have "int (length (take (nat n) (rfile w))) = n"
    using a by simp
  ultimately show "\<exists>raw. rfile w = raw @ rfile (snd (read_request_json P req w)) \<and> int (length raw) = n"
    by blast
next
  assume "content_length req = None
        \<or> (\<exists>h n. content_length req = Some h \<and> py_int P h = Some n \<and> n \<le> 0)"
  then show "rfile (snd (read_request_json P req w)) = rfile w"
    by (auto simp: read_request_json_def)
next
  assume "content_length req = None
        \<or> (\<exists>h n. content_length req = Some h \<and> py_int P h = Some n \<and> n \<le> 0)"
  then show "fst (read_request_json P req w) = Inr (PDict [])"
    by (auto simp: read_request_json_def)
qed

theorem C8_witness:
  "(\<exists>raw. body_list @ [120, 121] = raw @ rfile (snd (read_request_json (demo (demo_tool 0))
        (post (lit ''3'')) (fresh Map.empty (body_list @ [120, 121])))) \<and> int (length raw) = 3)
   \<and> read_buffer (demo (demo_tool 0)) 3 = None
   \<and> rfile (snd (read_request_json (demo (demo_tool 0)) (post (lit ''3''))
        (fresh Map.empty (body_list @ [120, 121])))) = [120, 121]
   \<and> rfile (snd (read_request_json (demo (demo_tool 0))
        \<lparr>path = lit ''/deobfuscate'', content_length = None\<rparr>
        (fresh Map.empty (body_list @ [120, 121])))) = body_list @ [120, 121]
   \<and> rfile (snd (read_request_json (demo (demo_tool 0)) (post (lit ''0''))
        (fresh Map.empty (body_list @ [120, 121])))) = body_list @ [120, 121]"
proof -
  let ?P = "demo (demo_tool 0)"
  let ?w = "fresh Map.empty (body_list @ [120, 121])"
  have a: "content_length (post (lit ''3'')) = Some (lit ''3'') \<and> py_int ?P (lit ''3'') = Some 3
           \<and> (0::int) < 3 \<and> read_buffer ?P 3 = None \<and> nat 3 \<le> length (rfile ?w)"
    by (simp add: ev)
  have b: "content_length \<lparr>path = lit ''/deobfuscate'', content_length = None\<rparr> = None
        \<or> (\<exists>h n. content_length \<lparr>path = lit ''/deobfuscate'', content_length = None\<rparr> = Some h
                  \<and> py_int ?P h = Some n \<and> n \<le> 0)"
    by simp
  have c: "content_length (post (lit ''0'')) = None
        \<or> (\<exists>h n. content_length (post (lit ''0'')) = Some h \<and> py_int ?P h = Some n \<and> n \<le> 0)"
    by (simp add: ev)
  have r: "rfile (snd (read_request_json ?P (post (lit ''3'')) ?w)) = [120, 121]"
    by (simp add: ev)
  have rb: "read_buffer ?P 3 = None"
    by (simp add: ev)
  show ?thesis
    using C8_reads_declared_length [of "post (lit ''3'')" "lit ''3''" ?P 3 ?w,
            THEN conjunct1, rule_format, OF a]
      C8_reads_declared_length [of "\<lparr>path = lit ''/deobfuscate'', content_length = None\<rparr>" _ ?P _ ?w,
            THEN conjunct2, rule_format, OF b]
      C8_reads_declared_length [of "post (lit ''0'')" _ ?P _ ?w,
            THEN conjunct2, rule_format, OF c]
      r rb
    by (simp add: fresh_def body_list_def lit_def)
qed

text \<open>
  C9. When the decoded payload of a \<open>POST /deobfuscate\<close> request has a \<open>source\<close> that is
  falsy (\<open>null\<close>, \<open>false\<close>, \<open>0\<close>, the empty string; any value \<open>truthy\<close> rejects), the
  source text is the empty string, the handler does exactly what it does for the payload
  without the \<open>source\<close> item, and that is the 400 rejection. When \<open>script_key\<close> is falsy,
  the key is the empty string and the handler does exactly what it does for the payload
  without the \<open>script_key\<close> item.
\<close>

theorem C9_falsy_fields_as_absent:
  assumes "path req = lit ''/deobfuscate''"
    and "fst (read_request_json P req w) = Inr (PDict kv)"
  shows "(map_of kv (lit ''source'') = Some v \<and> \<not> truthy v \<longrightarrow>
            source_text P kv = []
          \<and> do_POST P req w =
              do_POST_payload P (PDict (filter (\<lambda>e. fst e \<noteq> lit ''source'') kv))
                (snd (read_request_json P req w))
          \<and> do_POST P req w =
              (None, send_json P rejection 400 (snd (read_request_json P req w))))
       \<and> (map_of kv (lit ''script_key'') = Some v \<and> \<not> truthy v \<longrightarrow>
            script_key_text P kv = []
          \<and> do_POST P req w =
              do_POST_payload P (PDict (filter (\<lambda>e. fst e \<noteq> lit ''script_key'') kv))
                (snd (read_request_json P req w)))"
proof (intro conjI impI)
  assume a: "map_of kv (lit ''source'') = Some v \<and> \<not> truthy v"
  then show s: "source_text P kv = []"
    by (simp add: source_text_def py_or_def py_str_def)
  have "source_text P (filter (\<lambda>e. fst e \<noteq> lit ''source'') kv) = source_text P kv"
    using a by (simp add: source_text_def map_of_filter_key py_or_def py_str_def)
  moreover have "script_key_text P (filter (\<lambda>e. fst e \<noteq> lit ''source'') kv) = script_key_text P kv"
    using lit_source_ne_key by (simp add: script_key_text_def map_of_filter_key)
  ultimately have "do_POST_payload P (PDict kv) (snd (read_request_json P req w)) =
      do_POST_payload P (PDict (filter (\<lambda>e. fst e \<noteq> lit ''source'') kv))
        (snd (read_request_json P req w))"
    by (intro payload_cong) simp_all
  then show "do_POST P req w =
      do_POST_payload P (PDict (filter (\<lambda>e. fst e \<noteq> lit ''source'') kv))
        (snd (read_request_json P req w))"
    by (simp only: do_POST_decoded [OF assms])
  show "do_POST P req w = (None, send_json P rejection 400 (snd (read_request_json P req w)))"
    by (simp add: do_POST_decoded [OF assms] payload_blank s strip_Nil)
next
  assume a: "map_of kv (lit ''script_key'') = Some v \<and> \<not> truthy v"
  then show "script_key_text P kv = []"
    by (simp add: script_key_text_def py_or_def py_str_def strip_Nil)
  have "script_key_text P (filter (\<lambda>e. fst e \<noteq> lit ''script_key'') kv) = script_key_text P kv"
    using a by (simp add: script_key_text_def map_of_filter_key py_or_def py_str_def)
  moreover have "source_text P (filter (\<lambda>e. fst e \<noteq> lit ''script_key'') kv) = source_text P kv"
    using lit_source_ne_key by (simp add: source_text_def map_of_filter_key)
  ultimately have "do_POST_payload P (PDict kv) (snd (read_request_json P req w)) =
      do_POST_payload P (PDict (filter (\<lambda>e. fst e \<noteq> lit ''script_key'') kv))
        (snd (read_request_json P req w))"
    by (intro payload_cong) simp_all
  then show "do_POST P req w =
      do_POST_payload P (PDict (filter (\<lambda>e. fst e \<noteq> lit ''script_key'') kv))
        (snd (read_request_json P req w))"
    by (simp only: do_POST_decoded [OF assms])
qed

theorem C9_witness:
  "fst (read_request_json (demo (demo_tool 0)) (post (lit ''16'')) (fresh Map.empty body_null))
     = Inr (PDict [(lit ''source'', PNone)])
   \<and> \<not> truthy PNone
   \<and> do_POST (demo (demo_tool 0)) (post (lit ''16'')) (fresh Map.empty body_null) =
       do_POST_payload (demo (demo_tool 0)) (PDict [])
         (snd (read_request_json (demo (demo_tool 0)) (post (lit ''16'')) (fresh Map.empty body_null)))
   \<and> trace (snd (do_POST (demo (demo_tool 0)) (post (lit ''16'')) (fresh Map.empty body_null))) =
       [Respond (json_response (demo (demo_tool 0)) 400 rejection)]"
proof -
  let ?P = "demo (demo_tool 0)"
  let ?kv = "[(lit ''source'', PNone)]"
  have p: "path (post (lit ''16'')) = lit ''/deobfuscate''"
    by (simp add: post_def)
  have d: "fst (read_request_json ?P (post (lit ''16'')) (fresh Map.empty body_null)) = Inr (PDict ?kv)"
    by (simp add: ev)
  have a: "map_of ?kv (lit ''source'') = Some PNone \<and> \<not> truthy PNone"
    by simp
  have t: "trace (snd (read_request_json ?P (post (lit ''16'')) (fresh Map.empty body_null))) = []"
    by (simp add: read_request_json_keeps fresh_def)
  note th = C9_falsy_fields_as_absent [OF p d, of PNone, THEN conjunct1, rule_format, OF a]
  have e1: "do_POST ?P (post (lit ''16'')) (fresh Map.empty body_null) =
       do_POST_payload ?P (PDict [])
         (snd (read_request_json ?P (post (lit ''16'')) (fresh Map.empty body_null)))"
    using th [THEN conjunct2, THEN conjunct1] by simp
  have e2: "trace (snd (do_POST ?P (post (lit ''16'')) (fresh Map.empty body_null))) =
       [Respond (json_response ?P 400 rejection)]"
    unfolding th [THEN conjunct2, THEN conjunct2]
    by (simp add: send_json_trace json_response_def t)
  show ?thesis
    by (intro conjI) (rule d, simp, rule e1, rule e2)
qed

text \<open>
  C5. Only \<open>json.JSONDecodeError\<close> is turned into the empty payload. For a body of the
  single octet \<open>0xFF\<close>, \<open>raw.decode("utf-8")\<close> raises \<open>UnicodeDecodeError\<close>, which
  leaves \<open>do_POST\<close>; for the body \<open>[1]\<close> the decoder returns the list, not an empty
  payload, and \<open>payload.get\<close> raises \<open>AttributeError\<close>. In both runs the handler writes no
  response at all.
\<close>

theorem C5_undecodable_bodies_raise:
  "fst (do_POST (demo (demo_tool 0)) (post (lit ''1'')) (fresh Map.empty [255])) = Some UnicodeDecodeError
   \<and> trace (snd (do_POST (demo (demo_tool 0)) (post (lit ''1'')) (fresh Map.empty [255]))) = []
   \<and> fst (read_request_json (demo (demo_tool 0)) (post (lit ''3'')) (fresh Map.empty body_list))
       = Inr (PList [PInt 1])
   \<and> fst (do_POST (demo (demo_tool 0)) (post (lit ''3'')) (fresh Map.empty body_list)) = Some AttributeError
   \<and> trace (snd (do_POST (demo (demo_tool 0)) (post (lit ''3'')) (fresh Map.empty body_list))) = []"
  by (simp add: ev)

text \<open>
  C6. When \<open>subprocess.run\<close> raises \<open>OSError\<close>, the staging directory and the staged
  file are removed, and the exception leaves \<open>do_POST\<close>: the handler sends neither a
  response nor an error page.
\<close>

theorem C6_spawn_failure_sends_nothing:
  "fst (do_POST (demo no_interpreter) (post (lit ''22'')) (fresh Map.empty body_print)) = Some OSError
   \<and> trace (snd (do_POST (demo no_interpreter) (post (lit ''22'')) (fresh Map.empty body_print))) =
       [Mkdtemp (lit ''/tmp/a''),
        WriteText (lit ''/tmp/a/input.lua'') (lit ''print(1)''),
        Run [lit ''/usr/bin/python3'', lit ''/app/main.py'', lit ''--format'', lit ''lua'',
             lit ''--no-report'', lit ''--no-execute-output'', lit ''--force'',
             lit ''/tmp/a/input.lua'']
            (lit ''/app'') (Inl OSError),
        Rmtree (lit ''/tmp/a'')]
   \<and> sent (trace (snd (do_POST (demo no_interpreter) (post (lit ''22'')) (fresh Map.empty body_print)))) = []
   \<and> fs (snd (do_POST (demo no_interpreter) (post (lit ''22'')) (fresh Map.empty body_print)))
        (lit ''/tmp/a'') = None
   \<and> fs (snd (do_POST (demo no_interpreter) (post (lit ''22'')) (fresh Map.empty body_print)))
        (lit ''/tmp/a/input.lua'') = None"
  by (simp add: ev)

text \<open>
  C7, as the specification states it, fails on an asset with a carriage return: the page
  \<open><p>\r\n\<close> (five octets) is answered with the four octets \<open><p>\n\<close> and
  \<open>Content-Length: 4\<close>, because \<open>read_text\<close> reads in text mode and translates newlines.
\<close>

theorem C7_crlf_asset_counterexample:
  "INDEX_PATH (demo (demo_tool 0)) = lit ''/app/web_gui/index.html''
   \<and> do_GET (demo (demo_tool 0)) \<lparr>path = lit ''/'', content_length = None\<rparr>
        (fresh [lit ''/app/web_gui/index.html'' \<mapsto> File [60, 112, 62, 13, 10]] []) =
       (None, \<lparr>fs = [lit ''/app/web_gui/index.html'' \<mapsto> File [60, 112, 62, 13, 10]],
               rfile = [],
               trace = [Respond \<lparr>status = 200,
                                 headers = [(lit ''Content-Type'', lit ''text/html; charset=utf-8''),
                                            (lit ''Content-Length'', lit ''4'')],
                                 content = Octets [60, 112, 62, 10]\<rparr>]\<rparr>)
   \<and> Octets [60, 112, 62, 10] \<noteq> Octets [60, 112, 62, 13, 10]"
  by (simp add: ev dec.simps)

text \<open>
  C7, amended. A \<open>GET\<close> for a path other than \<open>/\<close> and \<open>/index.html\<close> is answered with
  the 404 error page. For one of these two paths: when the asset does not exist or is a
  directory (opening it raises \<open>OSError\<close>), with the 500 error page; when the asset is a
  file of valid UTF-8, with status 200, the body being the asset's octets with every
  \<open>\r\n\<close> and every lone \<open>\r\<close> replaced by \<open>\n\<close>, and a \<open>Content-Length\<close> that is the
  decimal length of that body. The body is the asset octet for octet when the asset
  holds no carriage return.
\<close>

theorem C7_static_page:
  "(path req \<noteq> lit ''/'' \<and> path req \<noteq> lit ''/index.html'' \<longrightarrow>
      do_GET P req w = (None, emit (SendError 404 (lit ''Not Found'')) w))
   \<and> ((path req = lit ''/'' \<or> path req = lit ''/index.html'')
        \<and> (fs w (INDEX_PATH P) = None \<or> fs w (INDEX_PATH P) = Some Dir) \<longrightarrow>
      do_GET P req w = (None, emit (SendError 500 (lit ''index.html missing'')) w))
   \<and> ((path req = lit ''/'' \<or> path req = lit ''/index.html'')
        \<and> fs w (INDEX_PATH P) = Some (File bs) \<and> utf8_decode bs \<noteq> None \<longrightarrow>
      do_GET P req w =
        (None, emit (Respond \<lparr>status = 200,
                              headers = [(lit ''Content-Type'', lit ''text/html; charset=utf-8''),
                                         (lit ''Content-Length'',
                                          dec (length (universal_newlines bs)))],
                              content = Octets (universal_newlines bs)\<rparr>) w)
      \<and> (13 \<notin> set bs \<longrightarrow> universal_newlines bs = bs))"
proof (intro conjI impI)
  assume "path req \<noteq> lit ''/'' \<and> path req \<noteq> lit ''/index.html''"
  then show "do_GET P req w = (None, emit (SendError 404 (lit ''Not Found'')) w)"
    by (simp add: do_GET_def send_error_def)
next
  assume "(path req = lit ''/'' \<or> path req = lit ''/index.html'')
        \<and> (fs w (INDEX_PATH P) = None \<or> fs w (INDEX_PATH P) = Some Dir)"
  then show "do_GET P req w = (None, emit (SendError 500 (lit ''index.html missing'')) w)"
    by (auto simp: do_GET_def send_error_def read_text_def)
next
  assume a: "(path req = lit ''/'' \<or> path req = lit ''/index.html'')
        \<and> fs w (INDEX_PATH P) = Some (File bs) \<and> utf8_decode bs \<noteq> None"
  then obtain t where t: "utf8_decode bs = Some t" by blast
  have r: "read_text (fs w) (INDEX_PATH P) = Inr (universal_newlines t)"
    using a t by (simp add: read_text_def)
  have p: "\<not> (path req \<noteq> lit ''/'' \<and> path req \<noteq> lit ''/index.html'')"
    using a by blast
  show "do_GET P req w =
        (None, emit (Respond \<lparr>status = 200,
                              headers = [(lit ''Content-Type'', lit ''text/html; charset=utf-8''),
                                         (lit ''Content-Length'',
                                          dec (length (universal_newlines bs)))],
                              content = Octets (universal_newlines bs)\<rparr>) w)"
    using p by (auto simp: do_GET_def r send_html_def read_then_encode [OF t])
next
  assume "13 \<notin> set bs"
  then show "universal_newlines bs = bs"
    by (rule universal_newlines_no_cr)
qed

theorem C7_witness:
  "do_GET (demo (demo_tool 0)) \<lparr>path = lit ''/nope'', content_length = None\<rparr> (fresh Map.empty [])
     = (None, \<lparr>fs = Map.empty, rfile = [], trace = [SendError 404 (lit ''Not Found'')]\<rparr>)
   \<and> do_GET (demo (demo_tool 0)) \<lparr>path = lit ''/index.html'', content_length = None\<rparr>
        (fresh Map.empty [])
     = (None, \<lparr>fs = Map.empty, rfile = [], trace = [SendError 500 (lit ''index.html missing'')]\<rparr>)
   \<and> do_GET (demo (demo_tool 0)) \<lparr>path = lit ''/'', content_length = None\<rparr>
        (fresh [lit ''/app/web_gui/index.html'' \<mapsto> File [60, 112, 62, 195, 169, 10]] [])
     = (None, \<lparr>fs = [lit ''/app/web_gui/index.html'' \<mapsto> File [60, 112, 62, 195, 169, 10]],
              rfile = [],
              trace = [Respond \<lparr>status = 200,
                                headers = [(lit ''Content-Type'', lit ''text/html; charset=utf-8''),
                                           (lit ''Content-Length'', lit ''6'')],
                                content = Octets [60, 112, 62, 195, 169, 10]\<rparr>]\<rparr>)"
proof -
  let ?P = "demo (demo_tool 0)"
  let ?page = "[60, 112, 62, 195, 169, 10] :: nat list"
  let ?w = "fresh [lit ''/app/web_gui/index.html'' \<mapsto> File ?page] []"
  have a: "path \<lparr>path = lit ''/nope'', content_length = None\<rparr> \<noteq> lit ''/''
           \<and> path \<lparr>path = lit ''/nope'', content_length = None\<rparr> \<noteq> lit ''/index.html''"
    by (simp add: lit_def)
  have b: "(path \<lparr>path = lit ''/index.html'', content_length = None\<rparr> = lit ''/''
            \<or> path \<lparr>path = lit ''/index.html'', content_length = None\<rparr> = lit ''/index.html'')
           \<and> (fs (fresh Map.empty []) (INDEX_PATH ?P) = None
                \<or> fs (fresh Map.empty []) (INDEX_PATH ?P) = Some Dir)"
    by (simp add: fresh_def)
  have c: "(path \<lparr>path = lit ''/'', content_length = None\<rparr> = lit ''/''
            \<or> path \<lparr>path = lit ''/'', content_length = None\<rparr> = lit ''/index.html'')
           \<and> fs ?w (INDEX_PATH ?P) = Some (File ?page) \<and> utf8_decode ?page \<noteq> None"
    by (simp add: ev)
  have n: "13 \<notin> set ?page" by simp
  note th1 = C7_static_page [of "\<lparr>path = lit ''/nope'', content_length = None\<rparr>" ?P "fresh Map.empty []",
                 THEN conjunct1, rule_format, OF a]
  note th2 = C7_static_page [of "\<lparr>path = lit ''/index.html'', content_length = None\<rparr>" ?P
                 "fresh Map.empty []", THEN conjunct2, THEN conjunct1, rule_format, OF b]
  note th3 = C7_static_page [of "\<lparr>path = lit ''/'', content_length = None\<rparr>" ?P ?w ?page,
                 THEN conjunct2, THEN conjunct2, rule_format, OF c]
  have e: "universal_newlines ?page = ?page"
    using th3 [THEN conjunct2, rule_format, OF n] .
  show ?thesis
    using th1 th2 th3 [THEN conjunct1]
    by (simp add: e emit_def fresh_def dec.simps lit_def)
qed

end
